theory Spec2Isabelle
  imports Main
begin

section \<open>The Bluesky DM channel (src/channels/bluesky.ts)\<close>

text \<open>
  The class \<^verbatim>\<open>BlueskyChannel\<close> is embedded with explicit state passing. Every
  method takes the object's fields as a record and returns the updated record together
  with the list of effects it performed, in order (backend calls, callback invocations,
  console.error, sleep, and the write of the cursor field), and the exception it threw,
  if any. What the backend answers is an input of the model: a login response, a
  sendMessage response, and, for the polling loop, one \<open>tick\<close> per iteration holding
  the answers of listConvos and getLog. A tick also says at which of the iteration's
  three awaits the method \<^verbatim>\<open>stop()\<close> was called from outside. The loop consumes a
  list of ticks; when the list is used up while the loop condition still holds, the
  loop is reported as \<open>Pending\<close>.

  \<^verbatim>\<open>start()\<close> awaits the login call between setting the agent and setting the
  running flag. \<open>start\<close> is the call running through with nothing in between;
  \<open>start_begin\<close> and \<open>start_resume\<close> are its two halves, before and after the
  await, so that other methods can run while the login is pending.

  The registered callback is a function that returns normally or throws; it does not
  call back into the channel. The constants of \<^verbatim>\<open>config.js\<close> and the
  platform's date parser are parameters (record \<open>platform\<close>).
\<close>

subsection \<open>Data\<close>

datatype js_error = TypeError | Error string

record AtpSession =
  session_did :: string

record AtpAgent =
  service :: string
  session :: "AtpSession option"

record InboundMessage =
  im_id :: string
  groupId :: string
  sender :: string
  content :: string
  timestamp :: "int option"
  channel :: string

type_synonym MessageCallback = "InboundMessage \<Rightarrow> js_error option"

record MessageViewSender =
  sender_did :: string

text \<open>A message payload: \<open>mv_type\<close> is its \<^verbatim>\<open>$type\<close>; a payload without a
  \<^verbatim>\<open>sender\<close> object (a malformed response) has \<open>mv_sender = None\<close>.\<close>

record MessageView =
  mv_type :: string
  mv_id :: string
  mv_sender :: "MessageViewSender option"
  mv_text :: string
  mv_sentAt :: string

text \<open>A log entry: \<open>log_type\<close> is its \<^verbatim>\<open>$type\<close>; \<open>message = None\<close> is an
  absent (undefined or null) \<^verbatim>\<open>message\<close>.\<close>

record Log =
  log_type :: string
  convoId :: string
  message :: "MessageView option"

record Member =
  member_did :: string
  member_handle :: string

record Convo =
  members :: "Member list"

record GetLogData =
  data_cursor :: "string option"
  logs :: "Log list"

record platform =
  BLUESKY_SERVICE :: string
  BLUESKY_POLL_INTERVAL :: nat
  Date_getTime :: "string \<Rightarrow> int option"

datatype effect =
    LoginCall string string
  | ListConvosCall
  | GetLogCall "string option"
  | SendMessageCall string string
  | CursorStored string
  | CallbackInvoked InboundMessage
  | ErrorLogged string js_error
  | Slept nat

record BlueskyChannel =
  agent :: "AtpAgent option"
  identifier' :: string
  password :: string
  running :: bool
  messageCallback :: "MessageCallback option"
  cursor :: "string option"
  didHandleMap :: "string \<rightharpoonup> string"

record tick =
  listConvos_resp :: "js_error + Convo list"
  stop_in_listConvos :: bool
  getLog_resp :: "js_error + GetLogData"
  stop_in_getLog :: bool
  stop_in_sleep :: bool

datatype loop_status = Exited | Pending

subsection \<open>The public methods\<close>

definition init :: BlueskyChannel where
  "init = \<lparr>agent = None, identifier' = [], password = [], running = False,
            messageCallback = None, cursor = None, didHandleMap = Map.empty\<rparr>"

definition configure :: "BlueskyChannel \<Rightarrow> string \<Rightarrow> string \<Rightarrow> BlueskyChannel" where
  "configure st i p = st\<lparr>identifier' := i, password := p\<rparr>"

definition stop :: "BlueskyChannel \<Rightarrow> BlueskyChannel" where
  "stop st = st\<lparr>running := False, agent := None\<rparr>"

definition onMessage :: "BlueskyChannel \<Rightarrow> MessageCallback \<Rightarrow> BlueskyChannel" where
  "onMessage st cb = st\<lparr>messageCallback := Some cb\<rparr>"

definition setTyping :: "BlueskyChannel \<Rightarrow> string \<Rightarrow> bool \<Rightarrow> BlueskyChannel" where
  "setTyping st g ty = st"

definition isConfigured :: "BlueskyChannel \<Rightarrow> bool" where
  "isConfigured st = (length (identifier' st) > 0 \<and> length (password st) > 0)"

text \<open>\<^verbatim>\<open>groupId.replace(/^bsky:/, '')\<close>: the anchored pattern removes the five
  characters once, at the start, when they are there.\<close>

definition replace_bsky :: "string \<Rightarrow> string" where
  "replace_bsky g = (if take 5 g = ''bsky:'' then drop 5 g else g)"

text \<open>\<^verbatim>\<open>send\<close> changes no field; it returns its effects and the exception
  it throws. \<open>resp\<close> is the backend's answer to sendMessage.\<close>

definition send ::
  "BlueskyChannel \<Rightarrow> string \<Rightarrow> string \<Rightarrow> js_error + unit \<Rightarrow> effect list \<times> js_error option" where
  "send st g text resp =
     (case agent st of
        None \<Rightarrow> ([], None)
      | Some a \<Rightarrow>
          ([SendMessageCall (replace_bsky g) text],
           case resp of Inl err \<Rightarrow> Some err | Inr u \<Rightarrow> None))"

subsection \<open>The identity cache\<close>

fun upsert_members :: "(string \<rightharpoonup> string) \<Rightarrow> Member list \<Rightarrow> (string \<rightharpoonup> string)" where
  "upsert_members m [] = m"
| "upsert_members m (mb # mbs) =
     upsert_members
       (if member_did mb \<noteq> [] \<and> member_handle mb \<noteq> []
        then m(member_did mb \<mapsto> member_handle mb) else m) mbs"

fun upsert_convos :: "(string \<rightharpoonup> string) \<Rightarrow> Convo list \<Rightarrow> (string \<rightharpoonup> string)" where
  "upsert_convos m [] = m"
| "upsert_convos m (c # cs) = upsert_convos (upsert_members m (members c)) cs"

text \<open>\<^verbatim>\<open>refreshDidHandleMap\<close>: the whole body after the agent check is inside
  a try whose catch is empty, so the method never throws and logs nothing.\<close>

definition refreshDidHandleMap :: "BlueskyChannel \<Rightarrow> tick \<Rightarrow> BlueskyChannel \<times> effect list" where
  "refreshDidHandleMap st t =
     (case agent st of
        None \<Rightarrow> (st, [])
      | Some a \<Rightarrow>
          (let st1 = (if stop_in_listConvos t then stop st else st) in
           case listConvos_resp t of
             Inl err \<Rightarrow> (st1, [ListConvosCall])
           | Inr convos \<Rightarrow>
               (st1\<lparr>didHandleMap := upsert_convos (didHandleMap st1) convos\<rparr>,
                [ListConvosCall])))"

text \<open>\<^verbatim>\<open>this.didHandleMap.get(did) || did\<close>: an absent entry and an empty
  handle both fall back to the id.\<close>

definition resolve :: "(string \<rightharpoonup> string) \<Rightarrow> string \<Rightarrow> string" where
  "resolve m d = (case m d of None \<Rightarrow> d | Some h \<Rightarrow> if h = [] then d else h)"

subsection \<open>The polling loop\<close>

text \<open>The \<^verbatim>\<open>for\<close> loop over \<^verbatim>\<open>data.logs\<close>. It returns the callback
  invocations in order and the exception that ended it, if any.\<close>

fun process_logs ::
  "platform \<Rightarrow> BlueskyChannel \<Rightarrow> string option \<Rightarrow> Log list \<Rightarrow> effect list \<times> js_error option" where
  "process_logs pf st myDid [] = ([], None)"
| "process_logs pf st myDid (l # ls) =
     (if log_type l \<noteq> ''chat.bsky.convo.defs#logCreateMessage'' then process_logs pf st myDid ls
      else
        (case message l of
           None \<Rightarrow> process_logs pf st myDid ls
         | Some msgView \<Rightarrow>
             (if mv_type msgView \<noteq> ''chat.bsky.convo.defs#messageView''
              then process_logs pf st myDid ls
              else
                (case mv_sender msgView of
                   None \<Rightarrow> ([], Some TypeError)
                 | Some sd \<Rightarrow>
                     (if Some (sender_did sd) = myDid then process_logs pf st myDid ls
                      else
                        (let senderHandle = resolve (didHandleMap st) (sender_did sd);
                             im = \<lparr>im_id = mv_id msgView,
                                   groupId = ''bsky:'' @ convoId l,
                                   sender = senderHandle,
                                   content = (if mv_text msgView = [] then ''[Non-text message]''
                                              else mv_text msgView),
                                   timestamp = Date_getTime pf (mv_sentAt msgView),
                                   channel = ''bluesky''\<rparr>
                         in (case messageCallback st of
                               None \<Rightarrow> process_logs pf st myDid ls
                             | Some cb \<Rightarrow>
                                 (case cb im of
                                    Some err \<Rightarrow> ([CallbackInvoked im], Some err)
                                  | None \<Rightarrow>
                                      (let (tr, thrown) = process_logs pf st myDid ls
                                       in (CallbackInvoked im # tr, thrown))))))))))"

text \<open>\<^verbatim>\<open>if (data.cursor) this.cursor = data.cursor\<close>: undefined and the empty
  string are falsy.\<close>

definition store_cursor :: "BlueskyChannel \<Rightarrow> string option \<Rightarrow> BlueskyChannel \<times> effect list" where
  "store_cursor st dc =
     (case dc of
        None \<Rightarrow> (st, [])
      | Some c \<Rightarrow> if c = [] then (st, []) else (st\<lparr>cursor := Some c\<rparr>, [CursorStored c]))"

text \<open>The body of the \<^verbatim>\<open>try\<close> block of \<^verbatim>\<open>poll\<close>. Reading a property of
  \<^verbatim>\<open>this.agent\<close> after \<^verbatim>\<open>stop()\<close> has set it to null throws a TypeError.\<close>

definition poll_try ::
  "platform \<Rightarrow> BlueskyChannel \<Rightarrow> tick \<Rightarrow> BlueskyChannel \<times> effect list \<times> js_error option" where
  "poll_try pf st t =
     (let (st1, tr1) = refreshDidHandleMap st t in
      case agent st1 of
        None \<Rightarrow> (st1, tr1, Some TypeError)
      | Some chatAgent \<Rightarrow>
          (let tr2 = tr1 @ [GetLogCall (cursor st1)];
               st2 = (if stop_in_getLog t then stop st1 else st1)
           in case getLog_resp t of
                Inl err \<Rightarrow> (st2, tr2, Some err)
              | Inr data \<Rightarrow>
                  (let (st3, trc) = store_cursor st2 (data_cursor data);
                       tr3 = tr2 @ trc
                   in case agent st3 of
                        None \<Rightarrow> (st3, tr3, Some TypeError)
                      | Some a \<Rightarrow>
                          (let myDid = map_option session_did (session a);
                               (tr4, thrown) = process_logs pf st3 myDid (logs data)
                           in (st3, tr3 @ tr4, thrown)))))"

text \<open>One pass through the body of the \<^verbatim>\<open>while\<close> loop: the try block, the
  catch block and the sleep. The boolean is True when the pass left the loop by
  \<^verbatim>\<open>break\<close>.\<close>

definition poll_iteration ::
  "platform \<Rightarrow> BlueskyChannel \<Rightarrow> tick \<Rightarrow> BlueskyChannel \<times> effect list \<times> bool" where
  "poll_iteration pf st t =
     (let (st1, tr, thrown) = poll_try pf st t;
          st2 = (if stop_in_sleep t then stop st1 else st1)
      in case thrown of
           None \<Rightarrow> (st2, tr @ [Slept (BLUESKY_POLL_INTERVAL pf)], False)
         | Some err \<Rightarrow>
             if \<not> running st1 then (st1, tr, True)
             else (st2, tr @ [ErrorLogged ''Bluesky poll error:'' err,
                              Slept (BLUESKY_POLL_INTERVAL pf)], False))"

fun poll ::
  "platform \<Rightarrow> BlueskyChannel \<Rightarrow> tick list \<Rightarrow> BlueskyChannel \<times> effect list \<times> loop_status" where
  "poll pf st [] =
     (st, [], if running st \<and> agent st \<noteq> None then Pending else Exited)"
| "poll pf st (t # ts) =
     (if running st \<and> agent st \<noteq> None then
        (let (st1, tr1, brk) = poll_iteration pf st t in
         if brk then (st1, tr1, Exited)
         else (let (st2, tr2, s) = poll pf st1 ts in (st2, tr1 @ tr2, s)))
      else (st, [], Exited))"

text \<open>\<^verbatim>\<open>start\<close>: \<open>login\<close> is the backend's answer to the login call, and
  \<open>ticks\<close> feeds the polling loop that a successful start launches.\<close>

definition start ::
  "platform \<Rightarrow> BlueskyChannel \<Rightarrow> js_error + AtpSession \<Rightarrow> tick list \<Rightarrow>
   BlueskyChannel \<times> effect list \<times> js_error option" where
  "start pf st login ticks =
     (if identifier' st = [] \<or> password st = [] then (st, [], None)
      else if running st then (st, [], None)
      else
        (let st1 = st\<lparr>agent := Some \<lparr>service = BLUESKY_SERVICE pf, session = None\<rparr>\<rparr>;
             call = LoginCall (identifier' st1) (password st1)
         in case login of
              Inl err \<Rightarrow>
                (st1\<lparr>agent := None\<rparr>, [call, ErrorLogged ''Bluesky login failed:'' err], None)
            | Inr s \<Rightarrow>
                (let st2 = st1\<lparr>agent := Some \<lparr>service = BLUESKY_SERVICE pf, session = Some s\<rparr>,
                               running := True\<rparr>;
                     (st3, tr, status) = poll pf st2 ticks
                 in (st3, call # tr, None))))"

text \<open>\<^verbatim>\<open>start\<close> up to its await (lines 43 to 48): the two early returns, the
  new agent and the login call. The boolean is True when the call now waits for the
  login.\<close>

definition start_begin :: "platform \<Rightarrow> BlueskyChannel \<Rightarrow> BlueskyChannel \<times> effect list \<times> bool" where
  "start_begin pf st =
     (if identifier' st = [] \<or> password st = [] then (st, [], False)
      else if running st then (st, [], False)
      else
        (st\<lparr>agent := Some \<lparr>service = BLUESKY_SERVICE pf, session = None\<rparr>\<rparr>,
         [LoginCall (identifier' st) (password st)], True))"

text \<open>\<^verbatim>\<open>start\<close> from the moment the login call settles (lines 49 to 56).
  \<open>st\<close> is the state at that moment: other methods may have run since
  \<open>start_begin\<close>. A successful login writes the session into the agent object that
  this call created; \<open>own\<close> says whether the agent field still holds that object. A
  failed login sets the agent field to null whatever it holds.\<close>

definition start_resume ::
  "platform \<Rightarrow> BlueskyChannel \<Rightarrow> bool \<Rightarrow> js_error + AtpSession \<Rightarrow> tick list \<Rightarrow>
   BlueskyChannel \<times> effect list \<times> js_error option" where
  "start_resume pf st own login ticks =
     (case login of
        Inl err \<Rightarrow> (st\<lparr>agent := None\<rparr>, [ErrorLogged ''Bluesky login failed:'' err], None)
      | Inr s \<Rightarrow>
          (let st2 = st\<lparr>agent := (if own then map_option (\<lambda>a. a\<lparr>session := Some s\<rparr>) (agent st)
                                   else agent st),
                         running := True\<rparr>;
               (st3, tr, status) = poll pf st2 ticks
           in (st3, tr, None)))"

subsection \<open>Reachable states\<close>

text \<open>The states a channel object can be in between two steps, starting from a freshly
  constructed object. A step is a call of a method that does not await, one of the two
  halves of \<open>start\<close> (so the other methods can run while a login is pending), or a
  stretch of the polling loop. The rules do not say which login or loop is under way, so
  the set is an upper bound of the states the object passes through.\<close>

inductive reachable :: "platform \<Rightarrow> BlueskyChannel \<Rightarrow> bool" for pf :: platform where
  r_init: "reachable pf init"
| r_configure: "reachable pf st \<Longrightarrow> reachable pf (configure st i p)"
| r_start: "reachable pf st \<Longrightarrow> reachable pf (fst (start pf st login ticks))"
| r_start_begin: "reachable pf st \<Longrightarrow> reachable pf (fst (start_begin pf st))"
| r_start_resume: "reachable pf st \<Longrightarrow> reachable pf (fst (start_resume pf st own login ticks))"
| r_stop: "reachable pf st \<Longrightarrow> reachable pf (stop st)"
| r_onMessage: "reachable pf st \<Longrightarrow> reachable pf (onMessage st cb)"
| r_setTyping: "reachable pf st \<Longrightarrow> reachable pf (setTyping st g ty)"
| r_poll: "reachable pf st \<Longrightarrow> reachable pf (fst (poll pf st ticks))"


subsection \<open>Notions used in the statements\<close>

text \<open>The callback invocations, the console.error calls, the sleeps and the getLog
  calls (with the cursor each one passed) of a list of effects.\<close>

fun callback_msgs :: "effect list \<Rightarrow> InboundMessage list" where
  "callback_msgs [] = []"
| "callback_msgs (CallbackInvoked im # es) = im # callback_msgs es"
| "callback_msgs (e # es) = callback_msgs es"

fun error_logs :: "effect list \<Rightarrow> js_error list" where
  "error_logs [] = []"
| "error_logs (ErrorLogged p err # es) = err # error_logs es"
| "error_logs (e # es) = error_logs es"

fun sleeps :: "effect list \<Rightarrow> nat list" where
  "sleeps [] = []"
| "sleeps (Slept n # es) = n # sleeps es"
| "sleeps (e # es) = sleeps es"

fun fetch_calls :: "effect list \<Rightarrow> string option list" where
  "fetch_calls [] = []"
| "fetch_calls (GetLogCall c # es) = c # fetch_calls es"
| "fetch_calls (e # es) = fetch_calls es"

text \<open>An event the loop acts on: a "message created" entry whose payload is a
  "message view".\<close>

definition actionable :: "Log \<Rightarrow> bool" where
  "actionable l =
     (log_type l = ''chat.bsky.convo.defs#logCreateMessage'' \<and>
      (case message l of
         None \<Rightarrow> False
       | Some m \<Rightarrow> mv_type m = ''chat.bsky.convo.defs#messageView''))"

definition authored_by :: "string \<Rightarrow> Log \<Rightarrow> bool" where
  "authored_by d l =
     (case message l of
        None \<Rightarrow> False
      | Some m \<Rightarrow> (case mv_sender m of None \<Rightarrow> False | Some s \<Rightarrow> sender_did s = d))"

text \<open>The \<^verbatim>\<open>||\<close> of the sender lookup takes its right operand.\<close>

definition fallback_taken :: "(string \<rightharpoonup> string) \<Rightarrow> string \<Rightarrow> bool" where
  "fallback_taken m d = (case m d of None \<Rightarrow> True | Some h \<Rightarrow> h = [])"

definition cache_ok :: "(string \<rightharpoonup> string) \<Rightarrow> bool" where
  "cache_ok m = (\<forall>k v. m k = Some v \<longrightarrow> k \<noteq> [] \<and> v \<noteq> [])"

definition chan_inv :: "BlueskyChannel \<Rightarrow> bool" where
  "chan_inv st = cache_ok (didHandleMap st)"

subsection \<open>Example inputs\<close>

definition ex_platform :: platform where
  "ex_platform = \<lparr>BLUESKY_SERVICE = ''https://bsky.social'', BLUESKY_POLL_INTERVAL = 5000,
                   Date_getTime = (\<lambda>s. None)\<rparr>"

definition ex_session :: AtpSession where
  "ex_session = \<lparr>session_did = ''did:plc:me''\<rparr>"

definition ex_configured :: BlueskyChannel where
  "ex_configured = configure init ''alice.bsky.social'' ''app-password''"

definition ex_running :: BlueskyChannel where
  "ex_running = fst (start ex_platform ex_configured (Inr ex_session) [])"

definition ex_message :: "string \<Rightarrow> string \<Rightarrow> MessageView" where
  "ex_message d txt =
     \<lparr>mv_type = ''chat.bsky.convo.defs#messageView'', mv_id = ''m1'',
      mv_sender = Some \<lparr>sender_did = d\<rparr>, mv_text = txt,
      mv_sentAt = ''2024-01-01T00:00:00.000Z''\<rparr>"

definition ex_log :: "string \<Rightarrow> string \<Rightarrow> Log" where
  "ex_log d txt =
     \<lparr>log_type = ''chat.bsky.convo.defs#logCreateMessage'', convoId = ''abc123'',
      message = Some (ex_message d txt)\<rparr>"

definition ex_tick :: "js_error + Convo list \<Rightarrow> js_error + GetLogData \<Rightarrow> tick" where
  "ex_tick lc gl =
     \<lparr>listConvos_resp = lc, stop_in_listConvos = False, getLog_resp = gl,
      stop_in_getLog = False, stop_in_sleep = False\<rparr>"

definition ex_login_pending :: BlueskyChannel where
  "ex_login_pending = fst (start_begin ex_platform ex_configured)"

definition ex_stopped_in_login :: BlueskyChannel where
  "ex_stopped_in_login =
     fst (start_resume ex_platform (stop ex_login_pending) True (Inr ex_session) [])"

definition ex_listening :: BlueskyChannel where
  "ex_listening = onMessage ex_running (\<lambda>m. None)"

definition ex_convos :: "Convo list" where
  "ex_convos =
     [\<lparr>members = [\<lparr>member_did = ''did:plc:bob'', member_handle = ''bob.bsky.social''\<rparr>,
                  \<lparr>member_did = ''did:plc:me'', member_handle = ''alice.bsky.social''\<rparr>]\<rparr>]"

definition ex_cached :: BlueskyChannel where
  "ex_cached =
     fst (poll ex_platform ex_running
            [ex_tick (Inr ex_convos) (Inr \<lparr>data_cursor = None, logs = []\<rparr>)])"

definition ex_batch_tick :: "Log list \<Rightarrow> tick" where
  "ex_batch_tick ls = ex_tick (Inr []) (Inr \<lparr>data_cursor = Some ''c1'', logs = ls\<rparr>)"

definition ex_read_receipt :: Log where
  "ex_read_receipt = \<lparr>log_type = ''chat.bsky.convo.defs#logReadMessage'', convoId = ''abc123'',
                       message = Some (ex_message ''did:plc:bob'' ''seen'')\<rparr>"

definition ex_deleted :: Log where
  "ex_deleted = \<lparr>log_type = ''chat.bsky.convo.defs#logCreateMessage'', convoId = ''abc123'',
      message = Some ((ex_message ''did:plc:bob'' [])
                        \<lparr>mv_type := ''chat.bsky.convo.defs#deletedMessageView''\<rparr>)\<rparr>"



section \<open>Invariants\<close>

lemma upsert_members_new:
  "upsert_members m mbs k = Some v \<Longrightarrow> m k = Some v \<or> (k \<noteq> [] \<and> v \<noteq> [])"
proof (induction mbs arbitrary: m)
  case Nil
  then show ?case by simp
next
  case (Cons mb mbs)
  let ?m' = "if member_did mb \<noteq> [] \<and> member_handle mb \<noteq> []
             then m(member_did mb \<mapsto> member_handle mb) else m"
  from Cons.prems have "upsert_members ?m' mbs k = Some v" by simp
  from Cons.IH[OF this] have "?m' k = Some v \<or> (k \<noteq> [] \<and> v \<noteq> [])" .
  then show ?case by (auto split: if_splits)
qed

lemma upsert_convos_new:
  "upsert_convos m cs k = Some v \<Longrightarrow> m k = Some v \<or> (k \<noteq> [] \<and> v \<noteq> [])"
  by (induction cs arbitrary: m) (auto dest!: upsert_members_new)

lemma cache_ok_upsert_convos: "cache_ok m \<Longrightarrow> cache_ok (upsert_convos m cs)"
  unfolding cache_ok_def by (blast dest: upsert_convos_new)

lemma refresh_fields:
  "refreshDidHandleMap st t = (st1, tr) \<Longrightarrow>
     cursor st1 = cursor st \<and> identifier' st1 = identifier' st \<and> password st1 = password st
     \<and> messageCallback st1 = messageCallback st"
  by (auto simp: refreshDidHandleMap_def stop_def Let_def split: option.splits sum.splits if_splits)

lemma refresh_inv: "chan_inv st \<Longrightarrow> refreshDidHandleMap st t = (st1, tr) \<Longrightarrow> chan_inv st1"
  by (auto simp: refreshDidHandleMap_def stop_def Let_def chan_inv_def cache_ok_upsert_convos
           split: option.splits sum.splits if_splits)

lemma store_cursor_inv: "chan_inv st \<Longrightarrow> store_cursor st dc = (st1, tr) \<Longrightarrow> chan_inv st1"
  by (auto simp: store_cursor_def chan_inv_def split: option.splits if_splits)

lemma stop_inv: "chan_inv st \<Longrightarrow> chan_inv (stop st)"
  by (simp add: chan_inv_def stop_def)

lemma poll_try_state:
  "fst (poll_try pf st t) =
     (case agent (fst (refreshDidHandleMap st t)) of
        None \<Rightarrow> fst (refreshDidHandleMap st t)
      | Some a \<Rightarrow>
          (case getLog_resp t of
             Inl err \<Rightarrow> (if stop_in_getLog t then stop (fst (refreshDidHandleMap st t))
                         else fst (refreshDidHandleMap st t))
           | Inr data \<Rightarrow>
               fst (store_cursor (if stop_in_getLog t then stop (fst (refreshDidHandleMap st t))
                                  else fst (refreshDidHandleMap st t)) (data_cursor data))))"
  unfolding poll_try_def Let_def
  by (simp split: prod.splits option.splits sum.splits)

lemma poll_try_inv:
  assumes "chan_inv st" and "poll_try pf st t = (st', tr, thr)"
  shows "chan_inv st'"
proof -
  obtain st1 tr1 where r: "refreshDidHandleMap st t = (st1, tr1)"
    by (cases "refreshDidHandleMap st t") auto
  have i1: "chan_inv st1" using refresh_inv[OF assms(1) r] .
  have i2: "chan_inv (stop st1)" using i1 by (rule stop_inv)
  have i3: "chan_inv (fst (store_cursor st1 dc))" for dc
    using store_cursor_inv[OF i1, of dc] by (cases "store_cursor st1 dc") auto
  have i4: "chan_inv (fst (store_cursor (stop st1) dc))" for dc
    using store_cursor_inv[OF i2, of dc] by (cases "store_cursor (stop st1) dc") auto
  have eq: "st' = fst (poll_try pf st t)" by (simp add: assms(2))
  show ?thesis unfolding eq poll_try_state
    using i1 i2 i3 i4 by (simp add: r split: option.splits sum.splits)
qed

lemma poll_iteration_state:
  "poll_iteration pf st t = (st', tr, b) \<Longrightarrow>
     st' = fst (poll_try pf st t) \<or> st' = stop (fst (poll_try pf st t))"
  unfolding poll_iteration_def Let_def
  by (auto split: prod.splits option.splits if_splits)

lemma poll_iteration_inv:
  assumes "chan_inv st" and "poll_iteration pf st t = (st', tr, b)"
  shows "chan_inv st'"
proof -
  obtain st1 tr1 thr where p: "poll_try pf st t = (st1, tr1, thr)"
    by (cases "poll_try pf st t") auto
  have i1: "chan_inv st1" using poll_try_inv[OF assms(1) p] .
  have "st' = st1 \<or> st' = stop st1"
    using poll_iteration_state[OF assms(2)] p by simp
  then show ?thesis using i1 stop_inv by auto
qed

lemma poll_inv: "chan_inv st \<Longrightarrow> poll pf st ts = (st1, tr, s) \<Longrightarrow> chan_inv st1"
proof (induction ts arbitrary: st st1 tr s)
  case Nil
  then show ?case by simp
next
  case (Cons t ts)
  show ?case
  proof (cases "running st \<and> agent st \<noteq> None")
    case False
    with Cons.prems show ?thesis by auto
  next
    case True
    obtain sa ta b where it: "poll_iteration pf st t = (sa, ta, b)"
      by (cases "poll_iteration pf st t") auto
    from poll_iteration_inv[OF Cons.prems(1) it] have sa: "chan_inv sa" .
    show ?thesis
    proof (cases b)
      case True
      with Cons.prems \<open>running st \<and> agent st \<noteq> None\<close> it sa show ?thesis by auto
    next
      case False
      obtain sb tb s' where rest: "poll pf sa ts = (sb, tb, s')"
        by (cases "poll pf sa ts") auto
      from Cons.IH[OF sa rest] have "chan_inv sb" .
      with Cons.prems \<open>running st \<and> agent st \<noteq> None\<close> it False rest show ?thesis by auto
    qed
  qed
qed

lemma start_inv: "chan_inv st \<Longrightarrow> chan_inv (fst (start pf st login ticks))"
proof (cases login)
  case (Inl e)
  assume "chan_inv st"
  then show ?thesis using Inl by (auto simp: start_def chan_inv_def Let_def)
next
  case (Inr s)
  assume i: "chan_inv st"
  let ?st2 = "st\<lparr>agent := Some \<lparr>service = BLUESKY_SERVICE pf, session = Some s\<rparr>, running := True\<rparr>"
  have i2: "chan_inv ?st2" using i by (simp add: chan_inv_def)
  obtain sb tb s' where rest: "poll pf ?st2 ticks = (sb, tb, s')"
    by (cases "poll pf ?st2 ticks") auto
  from poll_inv[OF i2 rest] have "chan_inv sb" .
  then show ?thesis using Inr i rest by (auto simp: start_def Let_def)
qed

lemma start_begin_inv: "chan_inv st \<Longrightarrow> chan_inv (fst (start_begin pf st))"
  by (simp add: start_begin_def chan_inv_def)

lemma start_resume_inv:
  assumes "chan_inv st"
  shows "chan_inv (fst (start_resume pf st own login ticks))"
proof (cases login)
  case (Inl e)
  then show ?thesis using assms by (simp add: start_resume_def chan_inv_def)
next
  case (Inr s)
  let ?st2 = "st\<lparr>agent := (if own then map_option (\<lambda>a. a\<lparr>session := Some s\<rparr>) (agent st)
                            else agent st),
                  running := True\<rparr>"
  have i2: "chan_inv ?st2" using assms by (simp add: chan_inv_def)
  obtain sb tb s' where rest: "poll pf ?st2 ticks = (sb, tb, s')"
    by (cases "poll pf ?st2 ticks") auto
  from poll_inv[OF i2 rest] have "chan_inv sb" .
  then show ?thesis using Inr rest by (simp add: start_resume_def Let_def)
qed

lemma start_split:
  "start pf st login ticks =
     (if snd (snd (start_begin pf st)) then
        (fst (start_resume pf (fst (start_begin pf st)) True login ticks),
         fst (snd (start_begin pf st))
           @ fst (snd (start_resume pf (fst (start_begin pf st)) True login ticks)),
         None)
      else (st, [], None))"
  by (simp add: start_def start_begin_def start_resume_def Let_def case_prod_beta
           split: sum.splits)

lemma reachable_inv: "reachable pf st \<Longrightarrow> chan_inv st"
proof (induction rule: reachable.induct)
  case r_init
  show ?case by (simp add: chan_inv_def init_def cache_ok_def)
next
  case (r_poll st ticks)
  then show ?case using poll_inv[of st pf ticks] by (cases "poll pf st ticks") auto
qed (auto simp: start_inv stop_inv start_begin_inv start_resume_inv,
     auto simp: chan_inv_def configure_def onMessage_def setTyping_def)

lemma ex_running_eq:
  "ex_running =
     \<lparr>agent = Some \<lparr>service = ''https://bsky.social'', session = Some ex_session\<rparr>,
      identifier' = ''alice.bsky.social'', password = ''app-password'', running = True,
      messageCallback = None, cursor = None, didHandleMap = Map.empty\<rparr>"
  by (simp add: ex_running_def ex_configured_def ex_platform_def start_def configure_def init_def)

lemma ex_running_reachable: "reachable ex_platform ex_running"
  unfolding ex_running_def ex_configured_def
  by (intro reachable.r_start reachable.r_configure reachable.r_init)

section \<open>Facts about the polling loop\<close>

lemma callback_msgs_append: "callback_msgs (xs @ ys) = callback_msgs xs @ callback_msgs ys"
  by (induction xs rule: callback_msgs.induct) auto

lemma error_logs_append: "error_logs (xs @ ys) = error_logs xs @ error_logs ys"
  by (induction xs rule: error_logs.induct) auto



lemma cursor_stop: "cursor (stop st) = cursor st"
  by (simp add: stop_def)

lemma refresh_cursor: "cursor (fst (refreshDidHandleMap st t)) = cursor st"
  using refresh_fields[of st t] by (cases "refreshDidHandleMap st t") auto

lemma refresh_agent:
  "agent (fst (refreshDidHandleMap st t)) = (if stop_in_listConvos t then None else agent st)"
  by (auto simp: refreshDidHandleMap_def stop_def Let_def split: option.splits sum.splits)

lemma refresh_trace:
  "snd (refreshDidHandleMap st t) = (if agent st = None then [] else [ListConvosCall])"
  by (auto simp: refreshDidHandleMap_def Let_def split: option.splits sum.splits)

lemma store_cursor_cursor:
  "cursor (fst (store_cursor st dc)) =
     (case dc of None \<Rightarrow> cursor st | Some c \<Rightarrow> if c = [] then cursor st else Some c)"
  by (simp add: store_cursor_def split: option.splits)

lemma poll_try_cursor:
  "cursor (fst (poll_try pf st t)) =
     (if agent st \<noteq> None \<and> \<not> stop_in_listConvos t then
        (case getLog_resp t of
           Inl err \<Rightarrow> cursor st
         | Inr data \<Rightarrow>
             (case data_cursor data of
                None \<Rightarrow> cursor st
              | Some c \<Rightarrow> if c = [] then cursor st else Some c))
      else cursor st)"
  unfolding poll_try_state
  by (auto simp: refresh_agent refresh_cursor cursor_stop store_cursor_cursor
           split: option.splits sum.splits)

lemma poll_iteration_cursor:
  "cursor (fst (poll_iteration pf st t)) = cursor (fst (poll_try pf st t))"
  using poll_iteration_state[of pf st t]
  by (cases "poll_iteration pf st t") (auto simp: cursor_stop)


lemma fetch_calls_append: "fetch_calls (xs @ ys) = fetch_calls xs @ fetch_calls ys"
  by (induction xs rule: fetch_calls.induct) auto

lemma process_logs_no_fetch: "fetch_calls (fst (process_logs pf st myDid ls)) = []"
  by (induction ls) (auto simp: Let_def split: option.splits prod.splits)

lemma store_cursor_trace:
  "snd (store_cursor st dc) =
     (case dc of None \<Rightarrow> [] | Some c \<Rightarrow> if c = [] then [] else [CursorStored c])"
  by (simp add: store_cursor_def split: option.splits)

lemma store_cursor_agent: "agent (fst (store_cursor st dc)) = agent st"
  by (simp add: store_cursor_def split: option.splits)


text \<open>The try block when the agent is still there after the refresh.\<close>

lemma poll_try_live:
  assumes "agent st = Some a" and "\<not> stop_in_listConvos t"
  shows "poll_try pf st t =
     (case getLog_resp t of
        Inl err \<Rightarrow>
          (if stop_in_getLog t then stop (fst (refreshDidHandleMap st t))
           else fst (refreshDidHandleMap st t),
           [ListConvosCall, GetLogCall (cursor st)], Some err)
      | Inr data \<Rightarrow>
          (if stop_in_getLog t then
             (fst (store_cursor (stop (fst (refreshDidHandleMap st t))) (data_cursor data)),
              [ListConvosCall, GetLogCall (cursor st)]
                @ snd (store_cursor (stop (fst (refreshDidHandleMap st t))) (data_cursor data)),
              Some TypeError)
           else
             (fst (store_cursor (fst (refreshDidHandleMap st t)) (data_cursor data)),
              [ListConvosCall, GetLogCall (cursor st)]
                @ snd (store_cursor (fst (refreshDidHandleMap st t)) (data_cursor data))
                @ fst (process_logs pf
                        (fst (store_cursor (fst (refreshDidHandleMap st t)) (data_cursor data)))
                        (map_option session_did (session a)) (logs data)),
              snd (process_logs pf
                        (fst (store_cursor (fst (refreshDidHandleMap st t)) (data_cursor data)))
                        (map_option session_did (session a)) (logs data)))))"
proof -
  obtain st1 tr1 where r: "refreshDidHandleMap st t = (st1, tr1)"
    by (cases "refreshDidHandleMap st t") auto
  have a1: "agent st1 = Some a" using refresh_agent[of st t] r assms by simp
  have c1: "cursor st1 = cursor st" using refresh_cursor[of st t] r by simp
  have t1: "tr1 = [ListConvosCall]" using refresh_trace[of st t] r assms by simp
  show ?thesis
  proof (cases "getLog_resp t")
    case (Inl err)
    then show ?thesis by (simp add: poll_try_def r a1 c1 t1)
  next
    case (Inr data)
    show ?thesis
    proof (cases "stop_in_getLog t")
      case True
      obtain st3 trc where s: "store_cursor (stop st1) (data_cursor data) = (st3, trc)"
        by (cases "store_cursor (stop st1) (data_cursor data)") auto
      have "agent st3 = None"
        using store_cursor_agent[of "stop st1" "data_cursor data"] s by (simp add: stop_def)
      then show ?thesis using Inr True by (simp add: poll_try_def r a1 c1 t1 s)
    next
      case False
      obtain st3 trc where s: "store_cursor st1 (data_cursor data) = (st3, trc)"
        by (cases "store_cursor st1 (data_cursor data)") auto
      have "agent st3 = Some a"
        using store_cursor_agent[of st1 "data_cursor data"] s a1 by simp
      then show ?thesis using Inr False
        by (simp add: poll_try_def r a1 c1 t1 s split: prod.splits)
    qed
  qed
qed

lemma poll_try_dead:
  assumes "agent st = None \<or> stop_in_listConvos t"
  shows "poll_try pf st t =
           (fst (refreshDidHandleMap st t), snd (refreshDidHandleMap st t), Some TypeError)"
proof -
  have "agent (fst (refreshDidHandleMap st t)) = None"
    using assms by (auto simp: refresh_agent)
  then show ?thesis
    by (cases "refreshDidHandleMap st t") (simp add: poll_try_def)
qed

lemma poll_try_fetch_calls:
  "fetch_calls (fst (snd (poll_try pf st t))) =
     (if agent st \<noteq> None \<and> \<not> stop_in_listConvos t then [cursor st] else [])"
proof (cases "agent st \<noteq> None \<and> \<not> stop_in_listConvos t")
  case True
  then obtain a where a: "agent st = Some a" by auto
  show ?thesis using True
    by (simp add: poll_try_live[OF a] fetch_calls_append process_logs_no_fetch
          store_cursor_trace split: sum.splits option.splits)
next
  case False
  then have d: "agent st = None \<or> stop_in_listConvos t" by auto
  show ?thesis using False by (auto simp: poll_try_dead[OF d] refresh_trace)
qed

lemma poll_iteration_trace:
  "\<exists>suffix. fst (snd (poll_iteration pf st t)) = fst (snd (poll_try pf st t)) @ suffix
      \<and> fetch_calls suffix = [] \<and> callback_msgs suffix = []"
  unfolding poll_iteration_def Let_def
  by (auto split: prod.splits option.splits)

lemma poll_iteration_unfold:
  "poll_iteration pf st t =
     (case snd (snd (poll_try pf st t)) of
        None \<Rightarrow>
          (if stop_in_sleep t then stop (fst (poll_try pf st t)) else fst (poll_try pf st t),
           fst (snd (poll_try pf st t)) @ [Slept (BLUESKY_POLL_INTERVAL pf)], False)
      | Some err \<Rightarrow>
          if \<not> running (fst (poll_try pf st t))
          then (fst (poll_try pf st t), fst (snd (poll_try pf st t)), True)
          else (if stop_in_sleep t then stop (fst (poll_try pf st t)) else fst (poll_try pf st t),
                fst (snd (poll_try pf st t))
                  @ [ErrorLogged ''Bluesky poll error:'' err, Slept (BLUESKY_POLL_INTERVAL pf)],
                False))"
  unfolding poll_iteration_def Let_def
  by (simp split: prod.splits option.splits)

lemma process_logs_skip:
  "\<not> actionable l \<Longrightarrow> process_logs pf st myDid (l # ls) = process_logs pf st myDid ls"
  by (auto simp: actionable_def split: option.splits)

lemma process_logs_self:
  "authored_by me l \<Longrightarrow>
     process_logs pf st (Some me) (l # ls) = process_logs pf st (Some me) ls"
  by (auto simp: authored_by_def split: option.splits)

lemma process_logs_cong_head:
  "process_logs pf st myDid ls = process_logs pf st myDid ls' \<Longrightarrow>
     process_logs pf st myDid (l # ls) = process_logs pf st myDid (l # ls')"
  by (simp add: Let_def split: option.splits)

lemma process_logs_filter_actionable:
  "process_logs pf st myDid (filter actionable ls) = process_logs pf st myDid ls"
proof (induction ls)
  case Nil
  show ?case by simp
next
  case (Cons l ls)
  show ?case
  proof (cases "actionable l")
    case True
    then show ?thesis using process_logs_cong_head[OF Cons.IH, of l]
      by (simp del: process_logs.simps)
  next
    case False
    then show ?thesis using Cons.IH by (simp add: process_logs_skip del: process_logs.simps)
  qed
qed

lemma process_logs_filter_self:
  "process_logs pf st (Some me) (filter (\<lambda>l. \<not> authored_by me l) ls)
     = process_logs pf st (Some me) ls"
proof (induction ls)
  case Nil
  show ?case by simp
next
  case (Cons l ls)
  show ?case
  proof (cases "authored_by me l")
    case True
    then show ?thesis using Cons.IH by (simp add: process_logs_self del: process_logs.simps)
  next
    case False
    then show ?thesis using process_logs_cong_head[OF Cons.IH, of l]
      by (simp del: process_logs.simps)
  qed
qed

lemma process_logs_none:
  "\<forall>l\<in>set ls. \<not> actionable l \<Longrightarrow> process_logs pf st myDid ls = ([], None)"
proof -
  assume "\<forall>l\<in>set ls. \<not> actionable l"
  then have "filter actionable ls = []" by (simp add: filter_empty_conv)
  then show ?thesis using process_logs_filter_actionable[of pf st myDid ls] by simp
qed

lemma process_logs_all_self:
  assumes "\<forall>l\<in>set ls. actionable l \<longrightarrow> authored_by me l"
  shows "process_logs pf st (Some me) ls = ([], None)"
proof -
  let ?rest = "filter (\<lambda>l. \<not> authored_by me l) ls"
  have "\<forall>l\<in>set ?rest. \<not> actionable l" using assms by auto
  then have "process_logs pf st (Some me) ?rest = ([], None)" by (rule process_logs_none)
  then show ?thesis using process_logs_filter_self[of pf st me ls] by simp
qed

lemma poll_iteration_callbacks:
  "callback_msgs (fst (snd (poll_iteration pf st t))) =
     callback_msgs (fst (snd (poll_try pf st t)))"
  using poll_iteration_trace[of pf st t] by (auto simp: callback_msgs_append)

lemma store_cursor_quiet:
  "callback_msgs (snd (store_cursor st dc)) = [] \<and> error_logs (snd (store_cursor st dc)) = []
   \<and> sleeps (snd (store_cursor st dc)) = []"
  by (simp add: store_cursor_trace split: option.splits)

lemma process_logs_groupId:
  "im \<in> set (callback_msgs (fst (process_logs pf st myDid ls))) \<Longrightarrow>
     \<exists>l \<in> set ls. groupId im = ''bsky:'' @ convoId l"
proof (induction ls)
  case Nil
  then show ?case by simp
next
  case (Cons l ls)
  then show ?case
    by (auto simp: Let_def split: if_splits option.splits prod.splits)
qed

lemma ex_cached_eq:
  "ex_cached = ex_running\<lparr>didHandleMap :=
      [''did:plc:bob'' \<mapsto> ''bob.bsky.social'', ''did:plc:me'' \<mapsto> ''alice.bsky.social'']\<rparr>"
  by (simp add: ex_cached_def ex_running_eq ex_tick_def ex_convos_def ex_platform_def
        poll_iteration_def poll_try_def refreshDidHandleMap_def store_cursor_def Let_def)

lemma ex_cached_reachable: "reachable ex_platform ex_cached"
  unfolding ex_cached_def by (intro reachable.r_poll ex_running_reachable)

lemma ex_listening_eq:
  "ex_listening =
     \<lparr>agent = Some \<lparr>service = ''https://bsky.social'', session = Some ex_session\<rparr>,
      identifier' = ''alice.bsky.social'', password = ''app-password'', running = True,
      messageCallback = Some (\<lambda>m. None), cursor = None, didHandleMap = Map.empty\<rparr>"
  by (simp add: ex_listening_def onMessage_def ex_running_eq)









section \<open>The claims\<close>

text \<open>
  Claim C1. The stored cursor changes only through a fetch that succeeds and returns a
  non-empty cursor, and then it becomes exactly that cursor, whatever the batch holds.
  None of configure, stop, onMessage, setTyping, start (before its loop runs) and the
  identity refresh touches the cursor. One loop iteration calls getLog at most once, with
  the stored cursor, and it does so exactly when the agent is still there after the
  refresh. After the iteration the cursor is the returned one if the fetch was issued,
  succeeded and returned a non-empty cursor; in every other case (the fetch threw, the
  returned cursor was absent or empty, no fetch was issued) it is the cursor from before.
  The events of the batch do not occur in the equation: it holds for every batch,
  the empty one included, and also when processing the batch throws.
\<close>

theorem cursor_changes_only_by_fetch:
  "cursor (configure st i p) = cursor st \<and>
   cursor (stop st) = cursor st \<and>
   cursor (onMessage st cb) = cursor st \<and>
   cursor (setTyping st g ty) = cursor st \<and>
   cursor (fst (start pf st login [])) = cursor st \<and>
   cursor (fst (refreshDidHandleMap st t)) = cursor st \<and>
   fetch_calls (fst (snd (poll_iteration pf st t))) =
     (if agent st \<noteq> None \<and> \<not> stop_in_listConvos t then [cursor st] else []) \<and>
   cursor (fst (poll_iteration pf st t)) =
     (if agent st \<noteq> None \<and> \<not> stop_in_listConvos t then
        (case getLog_resp t of
           Inl err \<Rightarrow> cursor st
         | Inr data \<Rightarrow>
             (case data_cursor data of
                None \<Rightarrow> cursor st
              | Some c \<Rightarrow> if c = [] then cursor st else Some c))
      else cursor st)"
proof -
  have a: "cursor (configure st i p) = cursor st" by (simp add: configure_def)
  have b: "cursor (onMessage st cb) = cursor st" by (simp add: onMessage_def)
  have c: "cursor (setTyping st g ty) = cursor st" by (simp add: setTyping_def)
  have d: "cursor (fst (start pf st login [])) = cursor st"
    by (simp add: start_def Let_def split: sum.splits)
  have e: "fetch_calls (fst (snd (poll_iteration pf st t))) =
     (if agent st \<noteq> None \<and> \<not> stop_in_listConvos t then [cursor st] else [])"
    using poll_iteration_trace[of pf st t] poll_try_fetch_calls[of pf st t]
    by (auto simp: fetch_calls_append)
  show ?thesis
    using a b c d e cursor_stop[of st] refresh_cursor[of st t]
          poll_iteration_cursor[of pf st t] poll_try_cursor[of pf st t]
    by simp
qed

theorem cursor_changes_only_by_fetch_witness:
  "cursor (fst (poll_iteration ex_platform ex_running
                  (ex_tick (Inr []) (Inr \<lparr>data_cursor = Some ''c1'', logs = []\<rparr>)))) = Some ''c1'' \<and>
   cursor (fst (poll_iteration ex_platform (ex_running\<lparr>cursor := Some ''c0''\<rparr>)
                  (ex_tick (Inr []) (Inl (Error ''network''))))) = Some ''c0'' \<and>
   cursor (fst (poll_iteration ex_platform (ex_running\<lparr>cursor := Some ''c0''\<rparr>)
                  (ex_tick (Inr []) (Inr \<lparr>data_cursor = Some [], logs = []\<rparr>)))) = Some ''c0''"
  using cursor_changes_only_by_fetch
          [where st = ex_running and pf = ex_platform
             and t = "ex_tick (Inr []) (Inr \<lparr>data_cursor = Some ''c1'', logs = []\<rparr>)"]
        cursor_changes_only_by_fetch
          [where st = "ex_running\<lparr>cursor := Some ''c0''\<rparr>" and pf = ex_platform
             and t = "ex_tick (Inr []) (Inl (Error ''network''))"]
        cursor_changes_only_by_fetch
          [where st = "ex_running\<lparr>cursor := Some ''c0''\<rparr>" and pf = ex_platform
             and t = "ex_tick (Inr []) (Inr \<lparr>data_cursor = Some [], logs = []\<rparr>)"]
  by (simp add: ex_running_eq ex_tick_def)




text \<open>
  Claim C3. Events whose sender id is the session's own id lead to no callback
  invocation: removing the events authored by \<open>me\<close> from a batch changes neither
  the callback invocations nor the outcome of processing it. A batch in which
  every actionable event is authored by the session's own identity (in particular a batch
  with exactly one such event) produces no callback invocation, also seen from the whole
  iteration, where the own id is read from the agent's session.
\<close>

theorem self_messages_filtered:
  "process_logs pf st (Some me) (filter (\<lambda>l. \<not> authored_by me l) ls)
     = process_logs pf st (Some me) ls \<and>
   ((\<forall>l\<in>set ls. actionable l \<longrightarrow> authored_by me l) \<longrightarrow>
      process_logs pf st (Some me) ls = ([], None)) \<and>
   (agent st = Some a \<and> session a = Some s \<and> getLog_resp t = Inr data \<and>
    (\<forall>l\<in>set (logs data). actionable l \<longrightarrow> authored_by (session_did s) l) \<longrightarrow>
      callback_msgs (fst (snd (poll_iteration pf st t))) = [])"
proof -
  have c: "callback_msgs (fst (snd (poll_iteration pf st t))) = []"
    if h: "agent st = Some a" "session a = Some s" "getLog_resp t = Inr data"
          "\<forall>l\<in>set (logs data). actionable l \<longrightarrow> authored_by (session_did s) l"
  proof (cases "stop_in_listConvos t")
    case True
    then show ?thesis
      by (simp add: poll_iteration_callbacks poll_try_dead refresh_trace)
  next
    case False
    have p: "process_logs pf st' (Some (session_did s)) (logs data) = ([], None)" for st'
      using process_logs_all_self[OF h(4)] .
    show ?thesis
      using h(2,3) store_cursor_quiet
      by (simp add: poll_iteration_callbacks poll_try_live[OF h(1) False] p callback_msgs_append)
  qed
  show ?thesis
    using process_logs_filter_self[of pf st me ls] process_logs_all_self[of ls me pf st] c
    by blast
qed

theorem self_messages_filtered_witness:
  "process_logs ex_platform ex_listening (Some ''did:plc:me'') [ex_log ''did:plc:me'' ''echo'']
     = ([], None) \<and>
   callback_msgs (fst (snd (poll_iteration ex_platform ex_listening
                              (ex_batch_tick [ex_log ''did:plc:me'' ''echo''])))) = [] \<and>
   map content (callback_msgs (fst (snd (poll_iteration ex_platform ex_listening
                              (ex_batch_tick [ex_log ''did:plc:me'' ''echo'',
                                              ex_log ''did:plc:bob'' ''hello''])))))
     = [''hello'']"
proof -
  have h: "\<forall>l\<in>set [ex_log ''did:plc:me'' ''echo'']. actionable l \<longrightarrow> authored_by ''did:plc:me'' l"
    by (simp add: ex_log_def ex_message_def authored_by_def)
  have g: "agent ex_listening = Some \<lparr>service = ''https://bsky.social'', session = Some ex_session\<rparr>
      \<and> session \<lparr>service = ''https://bsky.social'', session = Some ex_session\<rparr> = Some ex_session
      \<and> getLog_resp (ex_batch_tick [ex_log ''did:plc:me'' ''echo''])
          = Inr \<lparr>data_cursor = Some ''c1'', logs = [ex_log ''did:plc:me'' ''echo'']\<rparr>
      \<and> (\<forall>l\<in>set (logs \<lparr>data_cursor = Some ''c1'', logs = [ex_log ''did:plc:me'' ''echo'']\<rparr>).
            actionable l \<longrightarrow> authored_by (session_did ex_session) l)"
    using h by (simp add: ex_listening_eq ex_batch_tick_def ex_tick_def ex_session_def)
  have two: "map content (callback_msgs (fst (snd (poll_iteration ex_platform ex_listening
                              (ex_batch_tick [ex_log ''did:plc:me'' ''echo'',
                                              ex_log ''did:plc:bob'' ''hello''])))))
     = [''hello'']"
    by (simp add: poll_iteration_def poll_try_def refreshDidHandleMap_def store_cursor_def
          ex_listening_eq ex_batch_tick_def ex_tick_def ex_session_def ex_log_def ex_message_def
          ex_platform_def resolve_def Let_def)
  show ?thesis
    using self_messages_filtered[where pf = ex_platform and st = ex_listening
            and me = "''did:plc:me''" and ls = "[ex_log ''did:plc:me'' ''echo'']"
            and a = "\<lparr>service = ''https://bsky.social'', session = Some ex_session\<rparr>"
            and s = ex_session and t = "ex_batch_tick [ex_log ''did:plc:me'' ''echo'']"
            and data = "\<lparr>data_cursor = Some ''c1'', logs = [ex_log ''did:plc:me'' ''echo'']\<rparr>"]
          h g two
    by blast
qed

text \<open>
  Claim C4, as the code has it. \<open>send\<close> is guarded by the agent field, not by the
  running flag. With the agent present, \<open>send\<close> on a groupId \<open>''bsky:'' @ c\<close>
  performs exactly one backend call, sendMessage to conversation \<open>c\<close> with exactly the
  given text, and a failure of that call is thrown to the caller. With the agent absent
  it performs no backend call and returns normally. The agent is present from the moment
  \<open>start\<close> has created it, before the login call settles and with the running flag
  still unset, and it is absent after \<open>stop\<close> and after a failed login.
\<close>

theorem send_contract:
  "(agent st \<noteq> None \<longrightarrow>
      send st (''bsky:'' @ c) tx resp =
        ([SendMessageCall c tx], case resp of Inl err \<Rightarrow> Some err | Inr u \<Rightarrow> None)) \<and>
   (agent st = None \<longrightarrow> send st g tx resp = ([], None)) \<and>
   (identifier' st \<noteq> [] \<and> password st \<noteq> [] \<and> \<not> running st \<longrightarrow>
      agent (fst (start_begin pf st)) \<noteq> None \<and> \<not> running (fst (start_begin pf st))) \<and>
   agent (stop st) = None \<and>
   agent (fst (start_resume pf st own (Inl e) ticks)) = None"
proof -
  have "replace_bsky (''bsky:'' @ c) = c" by (simp add: replace_bsky_def)
  then show ?thesis
    by (auto simp: send_def stop_def start_begin_def start_resume_def split: option.splits)
qed

theorem send_contract_witness:
  "agent ex_running \<noteq> None \<and>
   send ex_running ''bsky:abc123'' ''hi'' (Inr ()) = ([SendMessageCall ''abc123'' ''hi''], None) \<and>
   send ex_running ''bsky:abc123'' ''hi'' (Inl (Error ''rate limit''))
     = ([SendMessageCall ''abc123'' ''hi''], Some (Error ''rate limit'')) \<and>
   agent (stop ex_running) = None \<and>
   send (stop ex_running) ''bsky:abc123'' ''hi'' (Inr ()) = ([], None) \<and>
   identifier' ex_configured \<noteq> [] \<and> password ex_configured \<noteq> [] \<and> \<not> running ex_configured \<and>
   agent (fst (start_begin ex_platform ex_configured)) \<noteq> None"
proof -
  have a1: "agent ex_running \<noteq> None" by (simp add: ex_running_eq)
  have a2: "agent (stop ex_running) = None" by (simp add: stop_def)
  have c: "identifier' ex_configured \<noteq> [] \<and> password ex_configured \<noteq> [] \<and> \<not> running ex_configured"
    by (simp add: ex_configured_def configure_def init_def)
  show ?thesis
    using send_contract[where st = ex_running and c = "''abc123''" and tx = "''hi''"
                          and resp = "Inr ()" and pf = ex_platform]
          send_contract[where st = ex_running and c = "''abc123''" and tx = "''hi''"
                          and resp = "Inl (Error ''rate limit'')" and pf = ex_platform]
          send_contract[where st = "stop ex_running" and g = "''bsky:abc123''" and tx = "''hi''"
                          and resp = "Inr ()" and pf = ex_platform]
          send_contract[where st = ex_configured and pf = ex_platform]
          a1 a2 c
    by simp
qed

text \<open>
  Claim C4 as stated fails when it is read with the running flag. While the login of
  \<open>start\<close> is pending the channel is not running, and \<open>send\<close> issues the backend
  call. When \<open>stop\<close> comes during that await and the login then succeeds, the channel
  is running with no agent, and \<open>send\<close> does nothing.
\<close>

theorem send_while_login_pending:
  "reachable ex_platform ex_login_pending \<and>
   \<not> running ex_login_pending \<and>
   send ex_login_pending ''bsky:abc123'' ''hi'' (Inr ())
     = ([SendMessageCall ''abc123'' ''hi''], None) \<and>
   reachable ex_platform ex_stopped_in_login \<and>
   running ex_stopped_in_login \<and>
   send ex_stopped_in_login ''bsky:abc123'' ''hi'' (Inr ()) = ([], None)"
proof -
  have r0: "reachable ex_platform ex_configured"
    unfolding ex_configured_def by (intro reachable.r_configure reachable.r_init)
  have r1: "reachable ex_platform ex_login_pending"
    unfolding ex_login_pending_def using r0 by (rule reachable.r_start_begin)
  have r2: "reachable ex_platform ex_stopped_in_login"
    unfolding ex_stopped_in_login_def
    by (intro reachable.r_start_resume reachable.r_stop r1)
  have p: "ex_login_pending =
             ex_configured\<lparr>agent := Some \<lparr>service = ''https://bsky.social'', session = None\<rparr>\<rparr>"
    by (simp add: ex_login_pending_def start_begin_def ex_configured_def configure_def init_def
          ex_platform_def)
  have q: "ex_stopped_in_login = ex_configured\<lparr>running := True\<rparr>"
    by (simp add: ex_stopped_in_login_def p start_resume_def stop_def ex_configured_def
          configure_def init_def)
  have s1: "\<not> running ex_login_pending \<and>
            send ex_login_pending ''bsky:abc123'' ''hi'' (Inr ())
              = ([SendMessageCall ''abc123'' ''hi''], None)"
    by (simp add: p send_def replace_bsky_def ex_configured_def configure_def init_def)
  have s2: "running ex_stopped_in_login \<and>
            send ex_stopped_in_login ''bsky:abc123'' ''hi'' (Inr ()) = ([], None)"
    by (simp add: q send_def ex_configured_def configure_def init_def)
  show ?thesis using r1 r2 s1 s2 by simp
qed

text \<open>
  Claim C5. An event that is not actionable (its type is not "message created", or its
  message is absent, or the message's type is not "message view") is skipped: dropping
  such events from a batch changes neither the callback invocations nor the outcome, and
  a batch of such events alone produces no callback invocation and no exception; the
  iteration that processes it logs no error.
\<close>

theorem non_actionable_events_skipped:
  "process_logs pf st myDid (filter actionable ls) = process_logs pf st myDid ls \<and>
   ((\<forall>l\<in>set ls. \<not> actionable l) \<longrightarrow> process_logs pf st myDid ls = ([], None)) \<and>
   (agent st = Some a \<and> \<not> stop_in_listConvos t \<and> \<not> stop_in_getLog t \<and>
    getLog_resp t = Inr data \<and> (\<forall>l\<in>set (logs data). \<not> actionable l) \<longrightarrow>
      snd (snd (poll_try pf st t)) = None \<and>
      callback_msgs (fst (snd (poll_iteration pf st t))) = [] \<and>
      error_logs (fst (snd (poll_iteration pf st t))) = [])"
proof -
  have c: "snd (snd (poll_try pf st t)) = None \<and>
      callback_msgs (fst (snd (poll_iteration pf st t))) = [] \<and>
      error_logs (fst (snd (poll_iteration pf st t))) = []"
    if h: "agent st = Some a" "\<not> stop_in_listConvos t" "\<not> stop_in_getLog t"
          "getLog_resp t = Inr data" "\<forall>l\<in>set (logs data). \<not> actionable l"
  proof -
    have p: "process_logs pf st' d (logs data) = ([], None)" for st' d
      using process_logs_none[OF h(5)] .
    have t: "poll_try pf st t =
               (fst (store_cursor (fst (refreshDidHandleMap st t)) (data_cursor data)),
                [ListConvosCall, GetLogCall (cursor st)]
                  @ snd (store_cursor (fst (refreshDidHandleMap st t)) (data_cursor data)),
                None)"
      using h(3,4) by (simp add: poll_try_live[OF h(1,2)] p)
    show ?thesis using store_cursor_quiet
      by (simp add: poll_iteration_unfold t callback_msgs_append error_logs_append)
  qed
  show ?thesis
    using process_logs_filter_actionable[of pf st myDid ls] process_logs_none[of ls pf st myDid] c
    by blast
qed

theorem non_actionable_events_skipped_witness:
  "process_logs ex_platform ex_listening (Some ''did:plc:me'') [ex_read_receipt, ex_deleted]
     = ([], None) \<and>
   callback_msgs (fst (snd (poll_iteration ex_platform ex_listening
                              (ex_batch_tick [ex_read_receipt, ex_deleted])))) = [] \<and>
   error_logs (fst (snd (poll_iteration ex_platform ex_listening
                              (ex_batch_tick [ex_read_receipt, ex_deleted])))) = []"
proof -
  have h: "\<forall>l\<in>set [ex_read_receipt, ex_deleted]. \<not> actionable l"
    by (simp add: ex_read_receipt_def ex_deleted_def ex_message_def actionable_def)
  have g: "agent ex_listening = Some \<lparr>service = ''https://bsky.social'', session = Some ex_session\<rparr>
      \<and> \<not> stop_in_listConvos (ex_batch_tick [ex_read_receipt, ex_deleted])
      \<and> \<not> stop_in_getLog (ex_batch_tick [ex_read_receipt, ex_deleted])
      \<and> getLog_resp (ex_batch_tick [ex_read_receipt, ex_deleted])
          = Inr \<lparr>data_cursor = Some ''c1'', logs = [ex_read_receipt, ex_deleted]\<rparr>
      \<and> (\<forall>l\<in>set (logs \<lparr>data_cursor = Some ''c1'', logs = [ex_read_receipt, ex_deleted]\<rparr>).
            \<not> actionable l)"
    using h by (simp add: ex_listening_eq ex_batch_tick_def ex_tick_def)
  show ?thesis
    using non_actionable_events_skipped[where pf = ex_platform and st = ex_listening
            and myDid = "Some ''did:plc:me''" and ls = "[ex_read_receipt, ex_deleted]"
            and a = "\<lparr>service = ''https://bsky.social'', session = Some ex_session\<rparr>"
            and t = "ex_batch_tick [ex_read_receipt, ex_deleted]"
            and data = "\<lparr>data_cursor = Some ''c1'', logs = [ex_read_receipt, ex_deleted]\<rparr>"]
          h g
    by blast
qed

text \<open>
  Claim C6. In every reachable state, resolving a participant id gives the cached handle
  when the identity cache has an entry for the id, and the id itself when it has none.
  \<open>resolve\<close> is a total function of the cache and the id alone: it has no
  exception and no backend call among its results.
\<close>

theorem resolve_cached_or_id:
  "reachable pf st \<Longrightarrow>
     resolve (didHandleMap st) d = (case didHandleMap st d of None \<Rightarrow> d | Some h \<Rightarrow> h)"
  using reachable_inv[of pf st]
  by (auto simp: resolve_def chan_inv_def cache_ok_def split: option.splits)

theorem resolve_cached_or_id_witness:
  "resolve (didHandleMap ex_cached) ''did:plc:bob'' = ''bob.bsky.social'' \<and>
   resolve (didHandleMap ex_cached) ''did:plc:zed'' = ''did:plc:zed''"
  using resolve_cached_or_id[OF ex_cached_reachable, of "''did:plc:bob''"]
        resolve_cached_or_id[OF ex_cached_reachable, of "''did:plc:zed''"]
  by (simp add: ex_cached_eq)



text \<open>
  Claim C8. In an iteration whose fetch is issued and returns a non-empty cursor
  \<open>c\<close>, the effects start with the listConvos call, the getLog call and the write of
  \<open>c\<close> to the cursor field; all that follows is the processing of the batch (run on a
  state whose cursor is \<open>c\<close> already) and the end of the iteration, which invokes no
  callback. So every callback invocation of the iteration comes after the cursor was
  stored, and the cursor is \<open>c\<close> after the iteration even when processing throws.
\<close>

theorem cursor_stored_before_processing:
  assumes "agent st = Some a" and "\<not> stop_in_listConvos t"
    and "getLog_resp t = Inr data" and "data_cursor data = Some c" and "c \<noteq> []"
  shows "\<exists>st3 post thrown suffix.
           poll_try pf st t =
             (st3, [ListConvosCall, GetLogCall (cursor st), CursorStored c] @ post, thrown) \<and>
           cursor st3 = Some c \<and>
           (post, thrown) =
             (if stop_in_getLog t then ([], Some TypeError)
              else process_logs pf st3 (map_option session_did (session a)) (logs data)) \<and>
           fst (snd (poll_iteration pf st t)) =
             [ListConvosCall, GetLogCall (cursor st), CursorStored c] @ post @ suffix \<and>
           callback_msgs suffix = [] \<and>
           cursor (fst (poll_iteration pf st t)) = Some c"
proof -
  have cur: "cursor (fst (poll_iteration pf st t)) = Some c"
    using assms by (simp add: poll_iteration_cursor poll_try_cursor)
  have sc: "cursor (fst (store_cursor s (data_cursor data))) = Some c" for s
    using assms by (simp add: store_cursor_cursor)
  have st: "snd (store_cursor s (data_cursor data)) = [CursorStored c]" for s
    using assms by (simp add: store_cursor_trace)
  obtain suffix where
    suf: "fst (snd (poll_iteration pf st t)) = fst (snd (poll_try pf st t)) @ suffix"
      and cb: "callback_msgs suffix = []"
    using poll_iteration_trace[of pf st t] by blast
  show ?thesis
  proof (cases "stop_in_getLog t")
    case True
    have "poll_try pf st t =
            (fst (store_cursor (stop (fst (refreshDidHandleMap st t))) (data_cursor data)),
             [ListConvosCall, GetLogCall (cursor st), CursorStored c] @ [], Some TypeError)"
      using True assms(3) by (simp add: poll_try_live[OF assms(1,2)] st)
    then show ?thesis using True sc suf cb cur by auto
  next
    case False
    let ?st3 = "fst (store_cursor (fst (refreshDidHandleMap st t)) (data_cursor data))"
    let ?r = "process_logs pf ?st3 (map_option session_did (session a)) (logs data)"
    have "poll_try pf st t =
            (?st3, [ListConvosCall, GetLogCall (cursor st), CursorStored c] @ fst ?r, snd ?r)"
      using False assms(3) by (simp add: poll_try_live[OF assms(1,2)] st)
    then show ?thesis using False sc suf cb cur by auto
  qed
qed

theorem cursor_stored_before_processing_witness:
  "agent ex_listening = Some \<lparr>service = ''https://bsky.social'', session = Some ex_session\<rparr> \<and>
   getLog_resp (ex_batch_tick [ex_log ''did:plc:bob'' ''hello''])
     = Inr \<lparr>data_cursor = Some ''c1'', logs = [ex_log ''did:plc:bob'' ''hello'']\<rparr> \<and>
   cursor (fst (poll_iteration ex_platform ex_listening
                  (ex_batch_tick [ex_log ''did:plc:bob'' ''hello'']))) = Some ''c1'' \<and>
   take 3 (fst (snd (poll_iteration ex_platform ex_listening
                  (ex_batch_tick [ex_log ''did:plc:bob'' ''hello'']))))
     = [ListConvosCall, GetLogCall None, CursorStored ''c1''] \<and>
   map content (callback_msgs (drop 3 (fst (snd (poll_iteration ex_platform ex_listening
                  (ex_batch_tick [ex_log ''did:plc:bob'' ''hello'']))))))
     = [''hello'']"
proof -
  let ?t = "ex_batch_tick [ex_log ''did:plc:bob'' ''hello'']"
  let ?a = "\<lparr>service = ''https://bsky.social'', session = Some ex_session\<rparr>"
  let ?d = "\<lparr>data_cursor = Some ''c1'', logs = [ex_log ''did:plc:bob'' ''hello'']\<rparr>"
  have h1: "agent ex_listening = Some ?a" by (simp add: ex_listening_eq)
  have h2: "\<not> stop_in_listConvos ?t" by (simp add: ex_batch_tick_def ex_tick_def)
  have h3: "getLog_resp ?t = Inr ?d" by (simp add: ex_batch_tick_def ex_tick_def)
  have h4: "data_cursor ?d = Some ''c1''" by simp
  have h5: "''c1'' \<noteq> []" by simp
  have c: "cursor (fst (poll_iteration ex_platform ex_listening ?t)) = Some ''c1''"
    using cursor_stored_before_processing[OF h1 h2 h3 h4 h5, of ex_platform] by blast
  have e: "fst (snd (poll_iteration ex_platform ex_listening ?t)) =
            [ListConvosCall, GetLogCall None, CursorStored ''c1'',
             CallbackInvoked \<lparr>im_id = ''m1'', groupId = ''bsky:abc123'', sender = ''did:plc:bob'',
                content = ''hello'', timestamp = None, channel = ''bluesky''\<rparr>,
             Slept 5000]"
    by (simp add: poll_iteration_def poll_try_def refreshDidHandleMap_def store_cursor_def
          ex_listening_eq ex_batch_tick_def ex_tick_def ex_session_def ex_log_def ex_message_def
          ex_platform_def resolve_def Let_def)
  show ?thesis using h1 h3 c by (simp add: e)
qed

text \<open>
  Claim C9. Stripping the prefix from \<open>''bsky:'' @ c\<close> gives back \<open>c\<close> for every
  conversation id \<open>c\<close>, also one that itself starts with the prefix. Every message
  handed to the callback carries the groupId \<open>''bsky:'' @ convoId l\<close> of an event
  \<open>l\<close> of the batch, and the send path's stripping recovers \<open>convoId l\<close> from it.
\<close>

theorem groupId_round_trip:
  "replace_bsky (''bsky:'' @ c) = c \<and>
   (\<forall>im \<in> set (callback_msgs (fst (process_logs pf st myDid ls))).
      \<exists>l \<in> set ls. groupId im = ''bsky:'' @ convoId l \<and> replace_bsky (groupId im) = convoId l)"
proof -
  have rt: "replace_bsky (''bsky:'' @ c) = c" for c
    by (simp add: replace_bsky_def)
  show ?thesis using process_logs_groupId[of _ pf st myDid ls] rt by fastforce
qed

theorem groupId_round_trip_witness:
  "replace_bsky ''bsky:bsky:x'' = ''bsky:x'' \<and>
   map groupId (callback_msgs (fst (process_logs ex_platform ex_listening (Some ''did:plc:me'')
                    [ex_log ''did:plc:bob'' ''hello'']))) = [''bsky:abc123''] \<and>
   replace_bsky ''bsky:abc123'' = ''abc123''"
  using groupId_round_trip[where c = "''bsky:x''" and pf = ex_platform and st = ex_listening
          and myDid = "Some ''did:plc:me''" and ls = "[ex_log ''did:plc:bob'' ''hello'']"]
  by (simp add: ex_listening_def onMessage_def ex_log_def ex_message_def replace_bsky_def)

text \<open>
  Claim C10. An identity refresh adds to the cache only pairs whose id and handle are
  both non-empty. Hence in every reachable state each cache entry has a non-empty key and
  a non-empty handle, resolution of a cached id returns that handle, and the fallback to
  the id is taken exactly when the cache has no entry for the id.
\<close>

theorem cache_entries_nonempty:
  "(didHandleMap (fst (refreshDidHandleMap st0 t)) k = Some v \<longrightarrow>
      didHandleMap st0 k = Some v \<or> (k \<noteq> [] \<and> v \<noteq> [])) \<and>
   (reachable pf st \<longrightarrow>
      (didHandleMap st k = Some v \<longrightarrow> k \<noteq> [] \<and> v \<noteq> [] \<and> resolve (didHandleMap st) k = v) \<and>
      fallback_taken (didHandleMap st) d = (didHandleMap st d = None))"
proof -
  have a: "didHandleMap (fst (refreshDidHandleMap st0 t)) k = Some v \<longrightarrow>
      didHandleMap st0 k = Some v \<or> (k \<noteq> [] \<and> v \<noteq> [])"
    by (auto simp: refreshDidHandleMap_def stop_def Let_def
             split: option.splits sum.splits if_splits dest: upsert_convos_new)
  have b: "reachable pf st \<longrightarrow>
      (didHandleMap st k = Some v \<longrightarrow> k \<noteq> [] \<and> v \<noteq> [] \<and> resolve (didHandleMap st) k = v) \<and>
      fallback_taken (didHandleMap st) d = (didHandleMap st d = None)"
    using reachable_inv[of pf st]
    by (auto simp: resolve_def fallback_taken_def chan_inv_def cache_ok_def split: option.splits)
  from a b show ?thesis by blast
qed

theorem cache_entries_nonempty_witness:
  "didHandleMap ex_cached ''did:plc:bob'' = Some ''bob.bsky.social'' \<and>
   resolve (didHandleMap ex_cached) ''did:plc:bob'' = ''bob.bsky.social'' \<and>
   fallback_taken (didHandleMap ex_cached) ''did:plc:zed'' \<and>
   didHandleMap ex_cached ''did:plc:zed'' = None \<and>
   didHandleMap (fst (refreshDidHandleMap ex_running
      (ex_tick (Inr [\<lparr>members = [\<lparr>member_did = ''did:plc:x'', member_handle = []\<rparr>]\<rparr>])
               (Inl TypeError)))) ''did:plc:x'' = None"
proof -
  have h: "didHandleMap ex_cached ''did:plc:bob'' = Some ''bob.bsky.social''"
    by (simp add: ex_cached_eq)
  have z: "didHandleMap ex_cached ''did:plc:zed'' = None"
    by (simp add: ex_cached_eq)
  have e: "didHandleMap (fst (refreshDidHandleMap ex_running
      (ex_tick (Inr [\<lparr>members = [\<lparr>member_did = ''did:plc:x'', member_handle = []\<rparr>]\<rparr>])
               (Inl TypeError)))) ''did:plc:x'' = None"
    by (simp add: ex_running_eq ex_tick_def refreshDidHandleMap_def)
  show ?thesis
    using cache_entries_nonempty[where pf = ex_platform and st = ex_cached
            and k = "''did:plc:bob''" and v = "''bob.bsky.social''" and d = "''did:plc:zed''"]
          ex_cached_reachable h z e
    by simp
qed

end
